theory Spec2Isabelle
  imports Main
begin

section \<open>NoteParser.ts: reference candidates, parsed files and the workspace index\<close>

text \<open>
  A shallow embedding of \<^verbatim>\<open>src/NoteParser.ts\<close>. Objects are records, the static dictionary
  \<^verbatim>\<open>NoteParser._parsedFiles\<close> is a map from paths to records, and every function that mutates
  an object returns the object's new value. A promise is its settled value
  (\<open>Resolved\<close> or \<open>Rejected\<close>); the files a call reads are returned as a list of paths.
  JavaScript strings are lists of characters (one \<open>char\<close> for each code unit).
\<close>

subsection \<open>Declarations the file imports\<close>

text \<open>
  Modelled from the spec: \<^verbatim>\<open>ContextWordType\<close> and \<^verbatim>\<open>ContextWord\<close> are declared in
  \<^verbatim>\<open>ContextWord.ts\<close>, which is not among the sources. The spec's data model gives a context
  word the kinds Tag and WikiLink and speaks of "anything else"; the code tests membership in
  \<^verbatim>\<open>[ContextWordType.Tag, ContextWordType.WikiLink]\<close>. \<open>OtherKind\<close> stands for every member
  of the enum that is neither. The fields of \<^verbatim>\<open>ContextWord\<close> are those of the object literal
  in \<^verbatim>\<open>searchBacklinksFor\<close>.
\<close>

datatype ContextWordType = OtherKind | WikiLink | Tag

record RawPosition =
  line :: nat
  character :: nat

record RawRange =
  start :: RawPosition
  end' :: RawPosition

record ContextWord =
  type :: ContextWordType
  word :: string
  hasExtension :: "bool option"
  range_cw :: "RawRange option"

text \<open>
  One element of \<^verbatim>\<open>line.matchAll(rx)\<close>: \<^verbatim>\<open>match.index\<close> (a number or undefined) and
  \<^verbatim>\<open>match[0]\<close>.
\<close>

record RegExpMatchArray =
  index :: "nat option"
  match0 :: string

type_synonym ErrnoException = string

text \<open>
  The collaborators of \<^verbatim>\<open>NoteWorkspace.ts\<close> (not among the sources) are parameters:
  \<open>rxTagNoAnchors env l\<close> is the array \<^verbatim>\<open>Array.from(l.matchAll(NoteWorkspace.rxTagNoAnchors()))\<close>,
  \<open>rxWikiLink\<close> likewise, \<open>noteNamesFuzzyMatch\<close> the predicate of that name and
  \<open>noteFiles\<close> the \<^verbatim>\<open>fsPath\<close>s that \<^verbatim>\<open>NoteWorkspace.noteFiles()\<close> resolves to.
  \<open>wikiLinkTruthy\<close> is the JavaScript truthiness of the enum member
  \<^verbatim>\<open>ContextWordType.WikiLink\<close>, which the condition in line 260 tests: an enum member is
  falsy exactly when it is the number 0 (or the empty string).
\<close>

record Env =
  rxTagNoAnchors :: "string \<Rightarrow> RegExpMatchArray list"
  rxWikiLink :: "string \<Rightarrow> RegExpMatchArray list"
  noteNamesFuzzyMatch :: "string \<Rightarrow> string \<Rightarrow> bool"
  noteFiles :: "string list"
  wikiLinkTruthy :: bool

text \<open>
  The file system, as \<^verbatim>\<open>fs.readFile\<close> sees it: the error or the content for each path.
\<close>

type_synonym FileSystem = "string \<Rightarrow> ErrnoException + string"

datatype 'a Promise = Resolved 'a | Rejected ErrnoException

subsection \<open>RefCandidate\<close>

record RefCandidate =
  rawText :: string
  range_rc :: RawRange
  contextWordType :: ContextWordType

definition fromMatch :: "nat \<Rightarrow> RegExpMatchArray \<Rightarrow> ContextWordType \<Rightarrow> RefCandidate" where
  "fromMatch lineNum m cwType =
     (let s = (case index m of None \<Rightarrow> 0 | Some i \<Rightarrow> i);
          e = s + length (match0 m);
          r = \<lparr>start = \<lparr>line = lineNum, character = s\<rparr>,
               end' = \<lparr>line = lineNum, character = e\<rparr>\<rparr>
      in \<lparr>rawText = match0 m, range_rc = r, contextWordType = cwType\<rparr>)"

definition matchesContextWord :: "Env \<Rightarrow> RefCandidate \<Rightarrow> ContextWord \<Rightarrow> bool" where
  "matchesContextWord env c contextWord =
     (if type contextWord \<noteq> contextWordType c then False
      else if type contextWord = Tag then rawText c = CHR ''#'' # word contextWord
      else if type contextWord = WikiLink
        then noteNamesFuzzyMatch env (rawText c) (word contextWord)
      else False)"

subsection \<open>ParsedFile\<close>

record ParsedFile =
  fsPath :: string
  data :: "string option"
  refCandidates :: "RefCandidate list"
  parsed :: bool

definition new_ParsedFile :: "string \<Rightarrow> ParsedFile" where
  "new_ParsedFile p = \<lparr>fsPath = p, data = None, refCandidates = [], parsed = False\<rparr>"

text \<open>JavaScript truthiness of \<^verbatim>\<open>this.data\<close>: undefined and the empty string are falsy.\<close>

definition truthy :: "string option \<Rightarrow> bool" where
  "truthy d = (case d of None \<Rightarrow> False | Some s \<Rightarrow> s \<noteq> [])"

text \<open>
  \<^verbatim>\<open>readFile(useCache)\<close> returns the object after the call, the paths it read and the error the
  promise is rejected with (\<open>None\<close>: resolved with the object itself).
\<close>

definition readFile ::
  "FileSystem \<Rightarrow> bool \<Rightarrow> ParsedFile \<Rightarrow> ParsedFile \<times> string list \<times> ErrnoException option" where
  "readFile fs useCache pf =
     (if useCache \<and> truthy (data pf) then (pf, [], None)
      else
        let pf1 = pf\<lparr>parsed := False\<rparr> in
        (case fs (fsPath pf1) of
           Inl err \<Rightarrow> (pf1, [fsPath pf1], Some err)
         | Inr buffer \<Rightarrow> (pf1\<lparr>data := Some buffer\<rparr>, [fsPath pf1], None)))"

text \<open>
  \<^verbatim>\<open>data.split(/\r?\n/)\<close>: a line ends at a line feed, and a carriage return right before
  that line feed belongs to the separator. The result has one more element than there are
  separators.
\<close>

fun splitLines :: "string \<Rightarrow> string list" where
  "splitLines [] = [[]]"
| "splitLines (c # cs) =
     (if c = CHR 0x0A then [] # splitLines cs
      else if c = CHR 0x0D \<and> cs \<noteq> [] \<and> hd cs = CHR 0x0A then [] # splitLines (tl cs)
      else (case splitLines cs of [] \<Rightarrow> [[c]] | l # ls \<Rightarrow> (c # l) # ls))"

text \<open>The candidates one line contributes: the tag matches, then the wiki-link matches.\<close>

definition lineCandidates :: "Env \<Rightarrow> nat \<Rightarrow> string \<Rightarrow> RefCandidate list" where
  "lineCandidates env lineNum l =
     map (\<lambda>m. fromMatch lineNum m Tag) (rxTagNoAnchors env l) @
     map (\<lambda>m. fromMatch lineNum m WikiLink) (rxWikiLink env l)"

definition parseData :: "Env \<Rightarrow> bool \<Rightarrow> ParsedFile \<Rightarrow> ParsedFile" where
  "parseData env useCache pf =
     (if data pf = Some [] then pf
      else if \<not> truthy (data pf) then pf
      else if useCache \<and> parsed pf then pf
      else
        let lines = splitLines (the (data pf)) in
        pf\<lparr>refCandidates :=
             concat (map (\<lambda>(lineNum, l). lineCandidates env lineNum l) (enumerate 0 lines)),
           parsed := True\<rparr>)"

definition fromData :: "Env \<Rightarrow> string \<Rightarrow> ParsedFile" where
  "fromData env d = parseData env False ((new_ParsedFile ''NO_PATH'')\<lparr>data := Some d\<rparr>)"

definition rawRangesForWord :: "Env \<Rightarrow> ParsedFile \<Rightarrow> ContextWord option \<Rightarrow> RawRange list" where
  "rawRangesForWord env pf contextWord =
     (if data pf = Some [] then []
      else if \<not> truthy (data pf) then []
      else (case contextWord of
              None \<Rightarrow> []
            | Some cw \<Rightarrow>
                if type cw \<notin> set [Tag, WikiLink] then []
                else map range_rc (filter (\<lambda>c. matchesContextWord env c cw) (refCandidates pf))))"

text \<open>
  A \<^verbatim>\<open>vscode.Range\<close> is modelled by the raw range it is built from (start and end are on one
  line, start first).
\<close>

definition vscodeRangesForWord :: "Env \<Rightarrow> ParsedFile \<Rightarrow> ContextWord option \<Rightarrow> RawRange list" where
  "vscodeRangesForWord env pf contextWord = map (\<lambda>r. r) (rawRangesForWord env pf contextWord)"

text \<open>
  A JavaScript \<^verbatim>\<open>Set\<close> of strings is the list of its members in insertion order, which is
  what \<^verbatim>\<open>Array.from\<close> reads off it.
\<close>

definition setAdd :: "string list \<Rightarrow> string \<Rightarrow> string list" where
  "setAdd s x = (if x \<in> set s then s else s @ [x])"

definition newSet :: "string list \<Rightarrow> string list" where
  "newSet xs = foldl setAdd [] xs"

definition tagSet :: "ParsedFile \<Rightarrow> string list" where
  "tagSet pf =
     foldl setAdd [] (map rawText (filter (\<lambda>rc. contextWordType rc = Tag) (refCandidates pf)))"

subsection \<open>NoteParser\<close>

text \<open>
  \<^verbatim>\<open>NoteParser._parsedFiles\<close>. A \<^verbatim>\<open>ParsedFile\<close> object is reached only through its path, so
  the path is its address and the array \<^verbatim>\<open>parsedFiles\<close> is a list of paths into the store.
\<close>

type_synonym Store = "string \<rightharpoonup> ParsedFile"

type_synonym Location = "string \<times> RawRange"

definition lookupFile :: "Store \<Rightarrow> string \<Rightarrow> ParsedFile" where
  "lookupFile st p = (case st p of None \<Rightarrow> new_ParsedFile p | Some pf \<Rightarrow> pf)"

definition parsedFileFor :: "Store \<Rightarrow> string \<Rightarrow> Store \<times> ParsedFile" where
  "parsedFileFor st p = (let pf = lookupFile st p in (st(p \<mapsto> pf), pf))"

text \<open>\<^verbatim>\<open>files.map((f) => NoteParser.parsedFileFor(f.fsPath))\<close>\<close>

fun registerAll :: "Store \<Rightarrow> string list \<Rightarrow> Store" where
  "registerAll st [] = st"
| "registerAll st (p # ps) = registerAll (fst (parsedFileFor st p)) ps"

text \<open>
  \<^verbatim>\<open>Promise.all(parsedFiles.map((pf) => pf.readFile(useCache)))\<close>: every read is carried out,
  each on its own object, here in the order of the array; the result is the store after all
  of them, the paths read, and the first rejection in the order of the array (\<open>None\<close> when
  every promise resolved). The code starts all reads before any completes and is rejected
  with the failure that comes first in time; the two agree on the store and on whether the
  promise is rejected when no path occurs twice, and nothing below depends on which error
  of several is reported.
\<close>

fun readAll ::
  "FileSystem \<Rightarrow> bool \<Rightarrow> Store \<Rightarrow> string list \<Rightarrow> Store \<times> string list \<times> ErrnoException option" where
  "readAll fs useCache st [] = (st, [], None)"
| "readAll fs useCache st (p # ps) =
     (case readFile fs useCache (lookupFile st p) of
        (pf, reads, err) \<Rightarrow>
          (case readAll fs useCache (st(p \<mapsto> pf)) ps of
             (st', reads', err') \<Rightarrow>
               (st', reads @ reads', (case err of None \<Rightarrow> err' | Some e \<Rightarrow> Some e))))"

text \<open>\<^verbatim>\<open>.map((pf) => { pf.parseData(useCache); return pf; })\<close>\<close>

fun parseAll :: "Env \<Rightarrow> bool \<Rightarrow> Store \<Rightarrow> string list \<Rightarrow> Store" where
  "parseAll env useCache st [] = st"
| "parseAll env useCache st (p # ps) =
     parseAll env useCache (st(p \<mapsto> parseData env useCache (lookupFile st p))) ps"

definition parsedFilesForWorkspace ::
  "Env \<Rightarrow> FileSystem \<Rightarrow> bool \<Rightarrow> Store \<Rightarrow> Store \<times> string list \<times> ParsedFile list Promise" where
  "parsedFilesForWorkspace env fs useCache st =
     (let files = noteFiles env;
          st1 = registerAll st files
      in (case readAll fs useCache st1 files of
            (st2, reads, Some err) \<Rightarrow> (st2, reads, Rejected err)
          | (st2, reads, None) \<Rightarrow>
              let st3 = parseAll env useCache st2 files
              in (st3, reads, Resolved (map (lookupFile st3) files))))"

definition distinctTags ::
  "Env \<Rightarrow> FileSystem \<Rightarrow> Store \<Rightarrow> Store \<times> string list \<times> string list Promise" where
  "distinctTags env fs st =
     (case parsedFilesForWorkspace env fs True st of
        (st', reads, Rejected err) \<Rightarrow> (st', reads, Rejected err)
      | (st', reads, Resolved pfs) \<Rightarrow>
          (st', reads, Resolved (newSet (concat (map tagSet pfs)))))"

text \<open>
  The completed effect of \<^verbatim>\<open>updateCacheFor\<close> (the caller does not wait for it): the paths
  read and the store afterwards. When the read is rejected nothing is parsed.
\<close>

definition updateCacheFor :: "Env \<Rightarrow> FileSystem \<Rightarrow> Store \<Rightarrow> string \<Rightarrow> Store \<times> string list" where
  "updateCacheFor env fs st p =
     (case parsedFileFor st p of
        (st1, pf) \<Rightarrow>
          (case readFile fs False pf of
             (pf', reads, Some err) \<Rightarrow> (st1(p \<mapsto> pf'), reads)
           | (pf', reads, None) \<Rightarrow> (st1(p \<mapsto> parseData env False pf'), reads)))"

definition clearCacheFor :: "Store \<Rightarrow> string \<Rightarrow> Store" where
  "clearCacheFor st p = st(p := None)"

definition hydrateCache ::
  "Env \<Rightarrow> FileSystem \<Rightarrow> Store \<Rightarrow> Store \<times> string list \<times> ParsedFile list Promise" where
  "hydrateCache env fs st = parsedFilesForWorkspace env fs False st"

text \<open>
  The part of \<^verbatim>\<open>search\<close> after the branch on the kind: load the workspace with the cache,
  then collect the locations of every file in order.
\<close>

definition searchLocations ::
  "Env \<Rightarrow> FileSystem \<Rightarrow> Store \<Rightarrow> ContextWord \<Rightarrow> Store \<times> string list \<times> Location list Promise" where
  "searchLocations env fs st contextWord =
     (case parsedFilesForWorkspace env fs True st of
        (st', reads, Rejected err) \<Rightarrow> (st', reads, Rejected err)
      | (st', reads, Resolved parsedFiles) \<Rightarrow>
          (st', reads,
           Resolved (concat (map (\<lambda>pf. map (\<lambda>r. (fsPath pf, r))
                                        (vscodeRangesForWord env pf (Some contextWord)))
                                 parsedFiles))))"

text \<open>
  \<^verbatim>\<open>search(contextWord)\<close> returns the caller's context word after the call, the store, the
  paths read and the settled promise. The second condition of the source is the assignment
  \<^verbatim>\<open>(contextWord.type = ContextWordType.WikiLink)\<close>: it stores \<open>WikiLink\<close> in the object and
  its value is the value assigned. (The local \<^verbatim>\<open>query\<close> is computed and never read.)
\<close>

definition search ::
  "Env \<Rightarrow> FileSystem \<Rightarrow> Store \<Rightarrow> ContextWord
     \<Rightarrow> ContextWord \<times> Store \<times> string list \<times> Location list Promise" where
  "search env fs st contextWord =
     (if type contextWord = Tag then (contextWord, searchLocations env fs st contextWord)
      else
        let cw = contextWord\<lparr>type := WikiLink\<rparr> in
        if wikiLinkTruthy env then (cw, searchLocations env fs st cw)
        else (cw, st, [], Resolved []))"

definition searchBacklinksFor ::
  "Env \<Rightarrow> FileSystem \<Rightarrow> Store \<Rightarrow> string
     \<Rightarrow> ContextWord \<times> Store \<times> string list \<times> Location list Promise" where
  "searchBacklinksFor env fs st fileBasename =
     search env fs st
       \<lparr>type = WikiLink, word = fileBasename, hasExtension = Some True, range_cw = None\<rparr>"


subsection \<open>Auxiliary definitions\<close>


text \<open>The candidates of the lines \<open>ls\<close>, the first of which has number \<open>i\<close>.\<close>

definition allCandidates :: "Env \<Rightarrow> nat \<Rightarrow> string list \<Rightarrow> RefCandidate list" where
  "allCandidates env i ls =
     concat (map (\<lambda>(lineNum, l). lineCandidates env lineNum l) (enumerate i ls))"

text \<open>
  An example workspace for the scenarios below: synthetic patterns in place of the two
  configured regular expressions. \<open>scanTags\<close> finds every \<^verbatim>\<open>#\<close> followed by at least one
  word character or hyphen, \<open>scanWikiLinks\<close> every \<^verbatim>\<open>[[...]]\<close> with a non-empty body free
  of \<^verbatim>\<open>]\<close>; both scan from left to right and continue after a match, as a global regular
  expression does. \<open>ex_fuzzyMatch\<close> compares the link's body with the note name, and
  \<open>ex_fs\<close> is a file system holding the listed files only.
\<close>

definition isTagChar :: "char \<Rightarrow> bool" where
  "isTagChar c =
     (c \<in> set ''abcdefghijklmnopqrstuvwxyzABCDEFGHIJKLMNOPQRSTUVWXYZ0123456789_-'')"

function scanTags :: "nat \<Rightarrow> string \<Rightarrow> RegExpMatchArray list" where
  "scanTags i [] = []"
| "scanTags i (c # cs) =
     (let w = takeWhile isTagChar cs in
      if c = CHR ''#'' \<and> w \<noteq> []
      then \<lparr>index = Some i, match0 = c # w\<rparr> #
           scanTags (i + 1 + length w) (dropWhile isTagChar cs)
      else scanTags (i + 1) cs)"
  by pat_completeness auto
termination
  by (relation "measure (\<lambda>(i, s). length s)") (auto simp: less_Suc_eq_le length_dropWhile_le)

function scanWikiLinks :: "nat \<Rightarrow> string \<Rightarrow> RegExpMatchArray list" where
  "scanWikiLinks i [] = []"
| "scanWikiLinks i (c # cs) =
     (let w = takeWhile (\<lambda>x. x \<noteq> CHR '']'') (tl cs);
          r = dropWhile (\<lambda>x. x \<noteq> CHR '']'') (tl cs)
      in if c = CHR ''['' \<and> take 1 cs = ''['' \<and> w \<noteq> [] \<and> take 2 r = '']]''
         then \<lparr>index = Some i, match0 = ''[['' @ w @ '']]''\<rparr> #
              scanWikiLinks (i + 4 + length w) (drop 2 r)
         else scanWikiLinks (i + 1) cs)"
  by pat_completeness auto
termination
proof (relation "measure (\<lambda>(i, s). length s)")
  fix i :: nat and c :: char and cs :: string and w r :: string
  assume "r = dropWhile (\<lambda>x. x \<noteq> CHR '']'') (tl cs)"
  then have "length r \<le> length (tl cs)"
    by (simp only: length_dropWhile_le)
  then show "((i + 4 + length w, drop 2 r), i, c # cs) \<in> measure (\<lambda>(i, s). length s)"
    by simp
qed auto

definition ex_fuzzyMatch :: "string \<Rightarrow> string \<Rightarrow> bool" where
  "ex_fuzzyMatch l r = (l = ''[['' @ r @ '']]'')"

definition ex_env :: "string list \<Rightarrow> Env" where
  "ex_env files =
     \<lparr>rxTagNoAnchors = scanTags 0, rxWikiLink = scanWikiLinks 0,
      noteNamesFuzzyMatch = ex_fuzzyMatch, noteFiles = files, wikiLinkTruthy = True\<rparr>"

definition ex_fs :: "(string \<times> string) list \<Rightarrow> FileSystem" where
  "ex_fs tbl p = (case map_of tbl p of None \<Rightarrow> Inl ''ENOENT'' | Some s \<Rightarrow> Inr s)"

definition ex_cw :: "ContextWordType \<Rightarrow> string \<Rightarrow> ContextWord" where
  "ex_cw k w = \<lparr>type = k, word = w, hasExtension = None, range_cw = None\<rparr>"

text \<open>The document at path \<open>p\<close> after its content \<open>d\<close> has been set and parsed.\<close>

definition ex_doc :: "string \<Rightarrow> string \<Rightarrow> ParsedFile" where
  "ex_doc p d = parseData (ex_env [p]) False ((new_ParsedFile p)\<lparr>data := Some d\<rparr>)"

text \<open>
  The document \<^verbatim>\<open>a.md\<close> that held \<^verbatim>\<open>#a\<close>, after its file was emptied and the document
  was read and parsed again without the cache.
\<close>

definition ex_reloaded :: ParsedFile where
  "ex_reloaded =
     parseData (ex_env [''a.md'']) False
       (fst (readFile (ex_fs [(''a.md'', [])]) False (ex_doc ''a.md'' ''#a'')))"

text \<open>
  The store after the workspace with the one file \<^verbatim>\<open>a.md\<close> holding \<^verbatim>\<open>#a\<close> was
  hydrated, the file was emptied, and \<^verbatim>\<open>updateCacheFor\<close> ran for it.
\<close>

definition ex_store_emptied :: Store where
  "ex_store_emptied =
     fst (updateCacheFor (ex_env [''a.md'']) (ex_fs [(''a.md'', [])])
            (fst (hydrateCache (ex_env [''a.md'']) (ex_fs [(''a.md'', ''#a'')]) Map.empty))
            ''a.md'')"

section \<open>Lemmas\<close>

lemma truthy_simps:
  "truthy None = False" "truthy (Some s) = (s \<noteq> [])"
  by (simp_all add: truthy_def)

subsection \<open>Splitting into lines\<close>

text \<open>
  \<open>splitLines\<close> cuts at every line feed and at every carriage return followed by a line
  feed, and nowhere else: a text without a line feed is one line, and a first line \<open>l\<close>
  ended by either separator is split off.
\<close>

lemma splitLines_nonempty: "splitLines s \<noteq> []"
  by (induction s) (auto split: list.splits)

lemma splitLines_no_LF: "CHR 0x0A \<notin> set l \<Longrightarrow> splitLines l = [l]"
  by (induction l) (auto dest: hd_in_set)

lemma splitLines_LF:
  "CHR 0x0A \<notin> set l \<Longrightarrow> l = [] \<or> last l \<noteq> CHR 0x0D \<Longrightarrow>
     splitLines (l @ CHR 0x0A # rest) = l # splitLines rest"
proof (induction l)
  case Nil
  then show ?case by simp
next
  case (Cons c l)
  then show ?case by (cases l) (auto split: list.splits)
qed

lemma splitLines_CRLF:
  "CHR 0x0A \<notin> set l \<Longrightarrow> splitLines (l @ CHR 0x0D # CHR 0x0A # rest) = l # splitLines rest"
proof (induction l)
  case Nil
  then show ?case by simp
next
  case (Cons c l)
  then show ?case by (cases l) (auto split: list.splits)
qed

subsection \<open>Candidates by line\<close>

lemma fromMatch_line: "line (start (range_rc (fromMatch n m k))) = n"
  by (simp add: fromMatch_def Let_def)

lemma lineCandidates_line:
  "c \<in> set (lineCandidates env n l) \<Longrightarrow> line (start (range_rc c)) = n"
  by (auto simp: lineCandidates_def fromMatch_line)

lemma filter_lineCandidates:
  "filter (\<lambda>c. line (start (range_rc c)) = n) (lineCandidates env k l) =
     (if k = n then lineCandidates env k l else [])"
proof (cases "k = n")
  case True
  then have "\<forall>c \<in> set (lineCandidates env k l). line (start (range_rc c)) = n"
    using lineCandidates_line by blast
  with True show ?thesis by simp
next
  case False
  then have "\<forall>c \<in> set (lineCandidates env k l). line (start (range_rc c)) \<noteq> n"
    using lineCandidates_line by blast
  with False show ?thesis by simp
qed

lemma allCandidates_simps:
  "allCandidates env i [] = []"
  "allCandidates env i (l # ls) = lineCandidates env i l @ allCandidates env (Suc i) ls"
  by (simp_all add: allCandidates_def)

lemma allCandidates_lower:
  "c \<in> set (allCandidates env i ls) \<Longrightarrow> i \<le> line (start (range_rc c))"
proof (induction ls arbitrary: i)
  case Nil
  then show ?case by (simp add: allCandidates_simps)
next
  case (Cons l ls)
  then show ?case
    by (fastforce simp: allCandidates_simps dest: lineCandidates_line)
qed

lemma allCandidates_sorted:
  "sorted (map (\<lambda>c. line (start (range_rc c))) (allCandidates env i ls))"
proof (induction ls arbitrary: i)
  case Nil
  then show ?case by (simp add: allCandidates_simps)
next
  case (Cons l ls)
  have same: "\<forall>c \<in> set (lineCandidates env i l). line (start (range_rc c)) = i"
    using lineCandidates_line by blast
  then have "sorted (map (\<lambda>c. line (start (range_rc c))) (lineCandidates env i l))"
    by (simp add: sorted_wrt_iff_nth_less)
  moreover have "\<forall>c \<in> set (allCandidates env (Suc i) ls). i \<le> line (start (range_rc c))"
    using allCandidates_lower by fastforce
  ultimately show ?case
    using Cons.IH [of "Suc i"] same
    by (auto simp: allCandidates_simps sorted_append)
qed

lemma allCandidates_filter:
  "filter (\<lambda>c. line (start (range_rc c)) = n) (allCandidates env i ls) =
     (if i \<le> n \<and> n < i + length ls then lineCandidates env n (ls ! (n - i)) else [])"
proof (induction ls arbitrary: i)
  case Nil
  then show ?case by (auto simp: allCandidates_simps)
next
  case (Cons l ls)
  show ?case
  proof (cases "n = i")
    case True
    have "filter (\<lambda>c. line (start (range_rc c)) = n) (allCandidates env (Suc i) ls) = []"
      using Cons.IH [of "Suc i"] True by simp
    then show ?thesis
      using True by (simp add: allCandidates_simps filter_lineCandidates)
  next
    case False
    then have "(l # ls) ! (n - i) = ls ! (n - Suc i)" if "i \<le> n"
      using that by (simp add: nth_Cons')
    with False show ?thesis
      by (auto simp: allCandidates_simps filter_lineCandidates Cons.IH)
  qed
qed

subsection \<open>Sets as lists\<close>

lemma foldl_setAdd_set: "set (foldl setAdd s xs) = set s \<union> set xs"
  by (induction xs arbitrary: s) (auto simp: setAdd_def)


lemma tagSet_set:
  "set (tagSet pf) = rawText ` {c \<in> set (refCandidates pf). contextWordType c = Tag}"
  by (auto simp: tagSet_def foldl_setAdd_set)




subsection \<open>Loading the workspace\<close>









section \<open>The claims\<close>

subsection \<open>RefCandidate.matchesContextWord\<close>

text \<open>
  C5. A candidate and a context word of different kinds never match. A context word of
  kind Tag matches exactly the Tag candidates whose raw text is \<^verbatim>\<open>#\<close> followed by the
  bare word, character for character. (For completeness: a WikiLink word matches the
  WikiLink candidates that the fuzzy note-name predicate accepts, and a word of any other
  kind matches nothing.)
\<close>

theorem matchesContextWord_spec:
  "(type cw \<noteq> contextWordType c \<longrightarrow> \<not> matchesContextWord env c cw) \<and>
   (type cw = Tag \<longrightarrow>
      matchesContextWord env c cw = (contextWordType c = Tag \<and> rawText c = ''#'' @ word cw)) \<and>
   (type cw = WikiLink \<longrightarrow>
      matchesContextWord env c cw =
        (contextWordType c = WikiLink \<and> noteNamesFuzzyMatch env (rawText c) (word cw))) \<and>
   (type cw = OtherKind \<longrightarrow> \<not> matchesContextWord env c cw)"
  by (auto simp: matchesContextWord_def)

text \<open>
  The candidate \<^verbatim>\<open>#a\<close> matches the tag word \<^verbatim>\<open>a\<close> and neither the tag word \<^verbatim>\<open>A\<close> nor the
  tag word \<^verbatim>\<open>ab\<close> nor the wiki-link word \<^verbatim>\<open>a\<close>; the candidate \<^verbatim>\<open>[[Idea]]\<close> matches the
  wiki-link word \<^verbatim>\<open>Idea\<close>.
\<close>

theorem matchesContextWord_spec_witness:
  "type (ex_cw Tag ''a'') = Tag \<and>
   matchesContextWord (ex_env []) (fromMatch 0 \<lparr>index = Some 0, match0 = ''#a''\<rparr> Tag)
     (ex_cw Tag ''a'') \<and>
   \<not> matchesContextWord (ex_env []) (fromMatch 0 \<lparr>index = Some 0, match0 = ''#a''\<rparr> Tag)
     (ex_cw Tag ''A'') \<and>
   \<not> matchesContextWord (ex_env []) (fromMatch 0 \<lparr>index = Some 0, match0 = ''#a''\<rparr> Tag)
     (ex_cw Tag ''ab'') \<and>
   type (ex_cw WikiLink ''a'') \<noteq> Tag \<and>
   \<not> matchesContextWord (ex_env []) (fromMatch 0 \<lparr>index = Some 0, match0 = ''#a''\<rparr> Tag)
     (ex_cw WikiLink ''a'') \<and>
   matchesContextWord (ex_env [])
     (fromMatch 0 \<lparr>index = Some 0, match0 = ''[[Idea]]''\<rparr> WikiLink) (ex_cw WikiLink ''Idea'') \<and>
   \<not> matchesContextWord (ex_env [])
     (fromMatch 0 \<lparr>index = Some 0, match0 = ''#a''\<rparr> OtherKind) (ex_cw OtherKind ''a'')"
  using
    matchesContextWord_spec [of "ex_cw Tag ''a''"
      "fromMatch 0 \<lparr>index = Some 0, match0 = ''#a''\<rparr> Tag" "ex_env []"]
    matchesContextWord_spec [of "ex_cw Tag ''A''"
      "fromMatch 0 \<lparr>index = Some 0, match0 = ''#a''\<rparr> Tag" "ex_env []"]
    matchesContextWord_spec [of "ex_cw Tag ''ab''"
      "fromMatch 0 \<lparr>index = Some 0, match0 = ''#a''\<rparr> Tag" "ex_env []"]
    matchesContextWord_spec [of "ex_cw WikiLink ''a''"
      "fromMatch 0 \<lparr>index = Some 0, match0 = ''#a''\<rparr> Tag" "ex_env []"]
    matchesContextWord_spec [of "ex_cw WikiLink ''Idea''"
      "fromMatch 0 \<lparr>index = Some 0, match0 = ''[[Idea]]''\<rparr> WikiLink" "ex_env []"]
    matchesContextWord_spec [of "ex_cw OtherKind ''a''"
      "fromMatch 0 \<lparr>index = Some 0, match0 = ''#a''\<rparr> OtherKind" "ex_env []"]
  by (simp add: ex_cw_def ex_env_def ex_fuzzyMatch_def fromMatch_def)

subsection \<open>ParsedFile.readFile\<close>

text \<open>
  C7. When \<^verbatim>\<open>readFile\<close> reads the file (it does unless the cache is requested and the
  content is truthy) and the read fails with \<open>err\<close>, the promise is rejected with \<open>err\<close>,
  the content, the candidates and the path are what they were, and the parsed flag is
  false.
\<close>

theorem readFile_failure:
  assumes "\<not> (useCache \<and> truthy (data pf))" and "fs (fsPath pf) = Inl err"
  shows "readFile fs useCache pf = (pf\<lparr>parsed := False\<rparr>, [fsPath pf], Some err) \<and>
         snd (snd (readFile fs useCache pf)) = Some err \<and>
         data (fst (readFile fs useCache pf)) = data pf \<and>
         refCandidates (fst (readFile fs useCache pf)) = refCandidates pf \<and>
         \<not> parsed (fst (readFile fs useCache pf))"
  using assms by (auto simp: readFile_def)

text \<open>
  A parsed document holding \<^verbatim>\<open>#a\<close> whose file has since been removed: a forced re-read is
  rejected, the content and the candidate stay, the flag drops.
\<close>

theorem readFile_failure_witness:
  "parsed (ex_doc ''a.md'' ''#a'') \<and>
   data (ex_doc ''a.md'' ''#a'') = Some ''#a'' \<and>
   ex_fs [] (fsPath (ex_doc ''a.md'' ''#a'')) = Inl ''ENOENT'' \<and>
   snd (snd (readFile (ex_fs []) False (ex_doc ''a.md'' ''#a''))) = Some ''ENOENT'' \<and>
   data (fst (readFile (ex_fs []) False (ex_doc ''a.md'' ''#a''))) = Some ''#a'' \<and>
   map rawText (refCandidates (fst (readFile (ex_fs []) False (ex_doc ''a.md'' ''#a'')))) =
     [''#a''] \<and>
   \<not> parsed (fst (readFile (ex_fs []) False (ex_doc ''a.md'' ''#a'')))"
proof -
  have d: "ex_doc ''a.md'' ''#a'' =
      \<lparr>fsPath = ''a.md'', data = Some ''#a'',
       refCandidates = [\<lparr>rawText = ''#a'',
         range_rc = \<lparr>start = \<lparr>line = 0, character = 0\<rparr>, end' = \<lparr>line = 0, character = 2\<rparr>\<rparr>,
         contextWordType = Tag\<rparr>],
       parsed = True\<rparr>"
    by code_simp
  have h1: "\<not> (False \<and> truthy (data (ex_doc ''a.md'' ''#a'')))"
    by simp
  have h2: "ex_fs [] (fsPath (ex_doc ''a.md'' ''#a'')) = Inl ''ENOENT''"
    by (simp add: ex_fs_def)
  show ?thesis
    using readFile_failure [where useCache = False and fs = "ex_fs []" and err = "''ENOENT''",
        OF h1 h2] h2
    by (simp add: d)
qed

text \<open>
  C3, as amended. When the content of a document is set and not empty,
  \<^verbatim>\<open>readFile(true)\<close> resolves with the instance, reads no file and changes nothing.
\<close>

theorem readFile_cached:
  assumes "truthy (data pf)"
  shows "readFile fs True pf = (pf, [], None)"
  using assms by (simp add: readFile_def)

theorem readFile_cached_witness:
  "truthy (data (ex_doc ''a.md'' ''#a'')) \<and>
   readFile (ex_fs [(''a.md'', ''#b'')]) True (ex_doc ''a.md'' ''#a'') =
     (ex_doc ''a.md'' ''#a'', [], None)"
proof -
  have h: "truthy (data (ex_doc ''a.md'' ''#a''))"
    by code_simp
  show ?thesis
    using readFile_cached [OF h] h by simp
qed

text \<open>
  C3 as stated fails for content that is the empty string: it is falsy, so the guard
  \<^verbatim>\<open>useCache && this.data\<close> does not hold, the file is read again and the content follows
  the file.
\<close>

theorem readFile_cached_empty_counterexample:
  "data \<lparr>fsPath = ''a.md'', data = Some [], refCandidates = [], parsed = False\<rparr> = Some [] \<and>
   readFile (ex_fs [(''a.md'', ''#a'')]) True
       \<lparr>fsPath = ''a.md'', data = Some [], refCandidates = [], parsed = False\<rparr> =
     (\<lparr>fsPath = ''a.md'', data = Some ''#a'', refCandidates = [], parsed = False\<rparr>,
      [''a.md''], None) \<and>
   readFile (ex_fs [(''a.md'', ''#a'')]) True
       \<lparr>fsPath = ''a.md'', data = Some [], refCandidates = [], parsed = False\<rparr> \<noteq>
     (\<lparr>fsPath = ''a.md'', data = Some [], refCandidates = [], parsed = False\<rparr>, [], None)"
  by (simp add: readFile_def truthy_def ex_fs_def)

subsection \<open>ParsedFile.parseData\<close>

text \<open>
  C8. Parsing again with the cache requested changes nothing, whatever the first call was:
  the second call returns the document the first one left, so the candidate lists are
  identical. When the parsed flag is set, \<^verbatim>\<open>parseData(true)\<close> returns the document as it is.
\<close>

theorem parseData_cache_hit:
  "parseData env True (parseData env useCache pf) = parseData env useCache pf \<and>
   refCandidates (parseData env True (parseData env useCache pf)) =
     refCandidates (parseData env useCache pf) \<and>
   (parsed pf \<longrightarrow> parseData env True pf = pf)"
  by (auto simp: parseData_def Let_def truthy_def split: option.splits)

theorem parseData_cache_hit_witness:
  "parsed (ex_doc ''a.md'' ''#a #b'') \<and>
   parseData (ex_env []) True (ex_doc ''a.md'' ''#a #b'') = ex_doc ''a.md'' ''#a #b'' \<and>
   map rawText (refCandidates (parseData (ex_env []) True (ex_doc ''a.md'' ''#a #b''))) =
     [''#a'', ''#b'']"
proof -
  have p: "parsed (ex_doc ''a.md'' ''#a #b'')"
    by code_simp
  have c: "map rawText (refCandidates (ex_doc ''a.md'' ''#a #b'')) = [''#a'', ''#b'']"
    by code_simp
  show ?thesis
    using parseData_cache_hit [of "ex_env []" False "ex_doc ''a.md'' ''#a #b''"] p c by simp
qed

text \<open>
  C6. When the content is not empty and the call is not a cache hit, \<^verbatim>\<open>parseData\<close>
  replaces the candidates (whatever they were) by the candidates of the lines of
  \<open>splitLines\<close> in order, each line giving its tag matches in the order the pattern
  produced them and then its wiki-link matches, and sets the parsed flag. So the line
  numbers of the candidates never decrease, and the candidates of line \<open>n\<close> are that
  line's tag matches followed by its wiki-link matches. The lines are cut at every line
  feed and at every carriage return followed by a line feed, and nowhere else: a text
  without a line feed is one line; a first line \<open>l\<close> (free of line feeds) ended by a bare
  line feed is split off, and so is one ended by a carriage return and a line feed, the
  separator belonging to neither line. These three equations determine the lines of every
  text.
\<close>

theorem parseData_tokenizes:
  assumes "data pf = Some d" and "d \<noteq> []" and "\<not> (useCache \<and> parsed pf)"
  shows "parseData env useCache pf =
           pf\<lparr>refCandidates :=
                concat (map (\<lambda>(lineNum, l).
                               map (\<lambda>m. fromMatch lineNum m Tag) (rxTagNoAnchors env l) @
                               map (\<lambda>m. fromMatch lineNum m WikiLink) (rxWikiLink env l))
                            (enumerate 0 (splitLines d))),
              parsed := True\<rparr> \<and>
         parsed (parseData env useCache pf) \<and>
         sorted (map (\<lambda>c. line (start (range_rc c)))
                     (refCandidates (parseData env useCache pf))) \<and>
         (\<forall>n < length (splitLines d).
            filter (\<lambda>c. line (start (range_rc c)) = n)
                   (refCandidates (parseData env useCache pf)) =
              map (\<lambda>m. fromMatch n m Tag) (rxTagNoAnchors env (splitLines d ! n)) @
              map (\<lambda>m. fromMatch n m WikiLink) (rxWikiLink env (splitLines d ! n))) \<and>
         (\<forall>l. CHR 0x0A \<notin> set l \<longrightarrow> splitLines l = [l]) \<and>
         (\<forall>l rest. CHR 0x0A \<notin> set l \<and> (l = [] \<or> last l \<noteq> CHR 0x0D) \<longrightarrow>
            splitLines (l @ CHR 0x0A # rest) = l # splitLines rest) \<and>
         (\<forall>l rest. CHR 0x0A \<notin> set l \<longrightarrow>
            splitLines (l @ CHR 0x0D # CHR 0x0A # rest) = l # splitLines rest)"
proof -
  have eq: "parseData env useCache pf =
      pf\<lparr>refCandidates := allCandidates env 0 (splitLines d), parsed := True\<rparr>"
    using assms by (auto simp: parseData_def allCandidates_def truthy_def Let_def)
  have c: "refCandidates (parseData env useCache pf) = allCandidates env 0 (splitLines d)"
    by (simp add: eq)
  have p: "parsed (parseData env useCache pf)"
    by (simp add: eq)
  have 1: "parseData env useCache pf =
           pf\<lparr>refCandidates :=
                concat (map (\<lambda>(lineNum, l).
                               map (\<lambda>m. fromMatch lineNum m Tag) (rxTagNoAnchors env l) @
                               map (\<lambda>m. fromMatch lineNum m WikiLink) (rxWikiLink env l))
                            (enumerate 0 (splitLines d))),
              parsed := True\<rparr>"
    by (simp add: eq allCandidates_def lineCandidates_def)
  have 2: "sorted (map (\<lambda>c. line (start (range_rc c)))
                     (refCandidates (parseData env useCache pf)))"
    unfolding c by (rule allCandidates_sorted)
  have 3: "\<forall>n < length (splitLines d).
            filter (\<lambda>c. line (start (range_rc c)) = n)
                   (refCandidates (parseData env useCache pf)) =
              map (\<lambda>m. fromMatch n m Tag) (rxTagNoAnchors env (splitLines d ! n)) @
              map (\<lambda>m. fromMatch n m WikiLink) (rxWikiLink env (splitLines d ! n))"
    unfolding c by (simp add: allCandidates_filter lineCandidates_def)
  have 4: "\<forall>l. CHR 0x0A \<notin> set l \<longrightarrow> splitLines l = [l]"
    by (simp add: splitLines_no_LF)
  have 5: "\<forall>l rest. CHR 0x0A \<notin> set l \<and> (l = [] \<or> last l \<noteq> CHR 0x0D) \<longrightarrow>
            splitLines (l @ CHR 0x0A # rest) = l # splitLines rest"
    using splitLines_LF by blast
  have 6: "\<forall>l rest. CHR 0x0A \<notin> set l \<longrightarrow>
            splitLines (l @ CHR 0x0D # CHR 0x0A # rest) = l # splitLines rest"
    using splitLines_CRLF by blast
  show ?thesis
    by (intro conjI) (rule 1 p 2 3 4 5 6)+
qed

text \<open>
  A text of three lines: the first ends with a carriage return and a line feed, the second
  with a bare line feed. On the first line the wiki link stands left of the tag, and the
  tag is emitted first; the tags after the separators are at character 0 of lines 1 and 2.
  Stale candidates and a stale flag are replaced when the cache is not requested. The lines
  follow from the three equations of the theorem alone.
\<close>

theorem parseData_tokenizes_witness:
  "CHR 0x0A \<notin> set ''[[Idea]] #t'' \<and>
   CHR 0x0A \<notin> set ''#u'' \<and> last ''#u'' \<noteq> CHR 0x0D \<and>
   CHR 0x0A \<notin> set ''#v'' \<and>
   data ((ex_doc ''a.md'' ''#old'')\<lparr>data :=
       Some (''[[Idea]] #t'' @ CHR 0x0D # CHR 0x0A # ''#u'' @ CHR 0x0A # ''#v'')\<rparr>) =
     Some (''[[Idea]] #t'' @ CHR 0x0D # CHR 0x0A # ''#u'' @ CHR 0x0A # ''#v'') \<and>
   splitLines (''[[Idea]] #t'' @ CHR 0x0D # CHR 0x0A # ''#u'' @ CHR 0x0A # ''#v'') =
     [''[[Idea]] #t'', ''#u'', ''#v''] \<and>
   map (\<lambda>c. (rawText c, line (start (range_rc c)), character (start (range_rc c)),
              character (end' (range_rc c)), contextWordType c))
     (refCandidates (parseData (ex_env []) False
        ((ex_doc ''a.md'' ''#old'')\<lparr>data :=
           Some (''[[Idea]] #t'' @ CHR 0x0D # CHR 0x0A # ''#u'' @ CHR 0x0A # ''#v'')\<rparr>))) =
     [(''#t'', 0, 9, 11, Tag), (''[[Idea]]'', 0, 0, 8, WikiLink),
      (''#u'', 1, 0, 2, Tag), (''#v'', 2, 0, 2, Tag)] \<and>
   parsed (parseData (ex_env []) False
        ((ex_doc ''a.md'' ''#old'')\<lparr>data :=
           Some (''[[Idea]] #t'' @ CHR 0x0D # CHR 0x0A # ''#u'' @ CHR 0x0A # ''#v'')\<rparr>)) \<and>
   sorted (map (\<lambda>c. line (start (range_rc c)))
     (refCandidates (parseData (ex_env []) False
        ((ex_doc ''a.md'' ''#old'')\<lparr>data :=
           Some (''[[Idea]] #t'' @ CHR 0x0D # CHR 0x0A # ''#u'' @ CHR 0x0A # ''#v'')\<rparr>))))"
proof -
  let ?d = "''[[Idea]] #t'' @ CHR 0x0D # CHR 0x0A # ''#u'' @ CHR 0x0A # ''#v''"
  let ?pf = "(ex_doc ''a.md'' ''#old'')\<lparr>data := Some ?d\<rparr>"
  have h1: "data ?pf = Some ?d"
    by simp
  have h2: "?d \<noteq> []"
    by simp
  have h3: "\<not> (False \<and> parsed ?pf)"
    by simp
  note t = parseData_tokenizes [OF h1 h2 h3, of "ex_env []"]
  have n1: "CHR 0x0A \<notin> set ''[[Idea]] #t''"
    and n2: "CHR 0x0A \<notin> set ''#u'' \<and> (''#u'' = [] \<or> last ''#u'' \<noteq> CHR 0x0D)"
    and n3: "CHR 0x0A \<notin> set ''#v''"
    by simp_all
  note prs = t [THEN conjunct2, THEN conjunct1]
  note srt = t [THEN conjunct2, THEN conjunct2, THEN conjunct1]
  note one = t [THEN conjunct2, THEN conjunct2, THEN conjunct2, THEN conjunct2, THEN conjunct1]
  note lf = t [THEN conjunct2, THEN conjunct2, THEN conjunct2, THEN conjunct2, THEN conjunct2,
      THEN conjunct1]
  note crlf = t [THEN conjunct2, THEN conjunct2, THEN conjunct2, THEN conjunct2,
      THEN conjunct2, THEN conjunct2]
  have s3: "splitLines ''#v'' = [''#v'']"
    using one n3 by blast
  have s2: "splitLines (''#u'' @ CHR 0x0A # ''#v'') = ''#u'' # splitLines ''#v''"
    using lf n2 by blast
  have s1: "splitLines ?d = ''[[Idea]] #t'' # splitLines (''#u'' @ CHR 0x0A # ''#v'')"
    using crlf n1 by blast
  have s: "splitLines ?d = [''[[Idea]] #t'', ''#u'', ''#v'']"
    by (simp only: s1 s2 s3)
  have c: "map (\<lambda>c. (rawText c, line (start (range_rc c)), character (start (range_rc c)),
              character (end' (range_rc c)), contextWordType c))
     (refCandidates (parseData (ex_env []) False ?pf)) =
     [(''#t'', 0, 9, 11, Tag), (''[[Idea]]'', 0, 0, 8, WikiLink),
      (''#u'', 1, 0, 2, Tag), (''#v'', 2, 0, 2, Tag)]"
    by code_simp
  have n2': "CHR 0x0A \<notin> set ''#u''" "last ''#u'' \<noteq> CHR 0x0D"
    by simp_all
  show ?thesis
    by (intro conjI) (rule n1 n2' n3 h1 s c prs srt)+
qed

text \<open>
  C2. The claim does not hold of the code: \<^verbatim>\<open>parseData\<close> returns before it resets the
  candidates when the content is the empty string, so a document that held \<^verbatim>\<open>#a\<close> and is
  loaded again from an emptied file keeps the candidate \<^verbatim>\<open>#a\<close> and reports it in its tag
  set; only the location query is guarded and yields nothing.
\<close>

theorem parseData_empty_keeps_candidates:
  "data ex_reloaded = Some [] \<and>
   map rawText (refCandidates ex_reloaded) = [''#a''] \<and>
   tagSet ex_reloaded = [''#a''] \<and>
   rawRangesForWord (ex_env [''a.md'']) ex_reloaded (Some (ex_cw Tag ''a'')) = []"
  by code_simp

text \<open>What does hold for empty content: parsing changes nothing and no location is found.\<close>

lemma parseData_empty:
  "data pf = Some [] \<Longrightarrow>
     parseData env useCache pf = pf \<and> rawRangesForWord env pf contextWord = []"
  by (simp add: parseData_def rawRangesForWord_def)

subsection \<open>ParsedFile.tagSet and NoteParser.distinctTags\<close>



text \<open>
  C10. The tag set of a document depends on its candidates only: it is the same whatever
  the content and the parsed flag are set to, and its members are the raw texts of the
  Tag candidates. When the file has become empty, reading it again sets the content to
  the empty string, and the tag set after any further \<^verbatim>\<open>parseData\<close> is still the one from
  the earlier content.
\<close>

theorem tagSet_ignores_data:
  "tagSet (pf\<lparr>data := d, parsed := b\<rparr>) = tagSet pf \<and>
   set (tagSet pf) = rawText ` {c \<in> set (refCandidates pf). contextWordType c = Tag} \<and>
   (fs (fsPath pf) = Inr [] \<longrightarrow>
      data (fst (readFile fs False pf)) = Some [] \<and>
      tagSet (parseData env useCache (fst (readFile fs False pf))) = tagSet pf)"
proof -
  have 1: "tagSet (pf\<lparr>data := d, parsed := b\<rparr>) = tagSet pf"
    by (simp add: tagSet_def)
  have 2: "data (fst (readFile fs False pf)) = Some [] \<and>
      tagSet (parseData env useCache (fst (readFile fs False pf))) = tagSet pf"
    if "fs (fsPath pf) = Inr []"
    using that by (simp add: readFile_def parseData_def tagSet_def)
  from 1 2 tagSet_set [of pf] show ?thesis by blast
qed

text \<open>
  The workspace of one file that held \<^verbatim>\<open>#a\<close>: after the file was emptied and its cache
  entry updated, the entry's content is the empty string and \<^verbatim>\<open>distinctTags\<close> still
  resolves with \<^verbatim>\<open>#a\<close>.
\<close>

theorem tagSet_ignores_data_witness:
  "ex_fs [(''a.md'', [])] (fsPath (ex_doc ''a.md'' ''#a'')) = Inr [] \<and>
   data (fst (readFile (ex_fs [(''a.md'', [])]) False (ex_doc ''a.md'' ''#a''))) = Some [] \<and>
   tagSet (parseData (ex_env [''a.md'']) True
             (fst (readFile (ex_fs [(''a.md'', [])]) False (ex_doc ''a.md'' ''#a'')))) = [''#a''] \<and>
   data (lookupFile ex_store_emptied ''a.md'') = Some [] \<and>
   snd (snd (distinctTags (ex_env [''a.md'']) (ex_fs [(''a.md'', [])]) ex_store_emptied)) =
     Resolved [''#a'']"
proof -
  have h: "ex_fs [(''a.md'', [])] (fsPath (ex_doc ''a.md'' ''#a'')) = Inr []"
    by code_simp
  have t: "tagSet (ex_doc ''a.md'' ''#a'') = [''#a'']"
    by code_simp
  have s: "data (lookupFile ex_store_emptied ''a.md'') = Some []"
    by code_simp
  have d: "snd (snd (distinctTags (ex_env [''a.md'']) (ex_fs [(''a.md'', [])]) ex_store_emptied)) =
     Resolved [''#a'']"
    by code_simp
  from tagSet_ignores_data [where pf = "ex_doc ''a.md'' ''#a''" and fs = "ex_fs [(''a.md'', [])]"
      and env = "ex_env [''a.md'']" and useCache = True] h t
  have "data (fst (readFile (ex_fs [(''a.md'', [])]) False (ex_doc ''a.md'' ''#a''))) = Some []"
    and "tagSet (parseData (ex_env [''a.md'']) True
             (fst (readFile (ex_fs [(''a.md'', [])]) False (ex_doc ''a.md'' ''#a'')))) = [''#a'']"
    by simp_all
  with h s d show ?thesis by blast
qed

subsection \<open>NoteParser.search\<close>

text \<open>
  C4. For a context word of kind Tag, \<^verbatim>\<open>search\<close> leaves the word as it is and collects
  the locations for it. For a word of any other kind the caller's object has kind WikiLink
  afterwards, and, the enum member \<^verbatim>\<open>ContextWordType.WikiLink\<close> being truthy, the locations
  are those of that WikiLink word: the whole call equals the call with the kind already set
  to WikiLink.
\<close>

theorem search_context_word:
  "(type cw = Tag \<longrightarrow>
      search env fs st cw = (cw, searchLocations env fs st cw)) \<and>
   (type cw \<noteq> Tag \<longrightarrow>
      fst (search env fs st cw) = cw\<lparr>type := WikiLink\<rparr> \<and>
      (wikiLinkTruthy env \<longrightarrow>
         snd (search env fs st cw) = searchLocations env fs st (cw\<lparr>type := WikiLink\<rparr>) \<and>
         search env fs st cw = search env fs st (cw\<lparr>type := WikiLink\<rparr>)))"
  by (simp add: search_def Let_def)

text \<open>
  A workspace of one file with the line \<^verbatim>\<open>#t links to [[Idea]]\<close>: the tag word \<^verbatim>\<open>t\<close>
  comes back unchanged with the tag's location; a word \<^verbatim>\<open>Idea\<close> of another kind comes back
  as a WikiLink word with the link's location.
\<close>

theorem search_context_word_witness:
  "type (ex_cw Tag ''t'') = Tag \<and>
   fst (search (ex_env [''n.md'']) (ex_fs [(''n.md'', ''#t links to [[Idea]]'')]) Map.empty
          (ex_cw Tag ''t'')) = ex_cw Tag ''t'' \<and>
   snd (snd (snd (search (ex_env [''n.md'']) (ex_fs [(''n.md'', ''#t links to [[Idea]]'')])
                    Map.empty (ex_cw Tag ''t'')))) =
     Resolved [(''n.md'', \<lparr>start = \<lparr>line = 0, character = 0\<rparr>,
                           end' = \<lparr>line = 0, character = 2\<rparr>\<rparr>)] \<and>
   type (ex_cw OtherKind ''Idea'') \<noteq> Tag \<and>
   wikiLinkTruthy (ex_env [''n.md'']) \<and>
   fst (search (ex_env [''n.md'']) (ex_fs [(''n.md'', ''#t links to [[Idea]]'')]) Map.empty
          (ex_cw OtherKind ''Idea'')) = ex_cw WikiLink ''Idea'' \<and>
   search (ex_env [''n.md'']) (ex_fs [(''n.md'', ''#t links to [[Idea]]'')]) Map.empty
       (ex_cw OtherKind ''Idea'') =
     search (ex_env [''n.md'']) (ex_fs [(''n.md'', ''#t links to [[Idea]]'')]) Map.empty
       (ex_cw WikiLink ''Idea'') \<and>
   snd (snd (snd (search (ex_env [''n.md'']) (ex_fs [(''n.md'', ''#t links to [[Idea]]'')])
                    Map.empty (ex_cw OtherKind ''Idea'')))) =
     Resolved [(''n.md'', \<lparr>start = \<lparr>line = 0, character = 12\<rparr>,
                           end' = \<lparr>line = 0, character = 20\<rparr>\<rparr>)]"
proof -
  let ?E = "ex_env [''n.md'']"
  let ?F = "ex_fs [(''n.md'', ''#t links to [[Idea]]'')]"
  have k: "type (ex_cw Tag ''t'') = Tag" "type (ex_cw OtherKind ''Idea'') \<noteq> Tag"
    "wikiLinkTruthy ?E" "(ex_cw OtherKind ''Idea'')\<lparr>type := WikiLink\<rparr> = ex_cw WikiLink ''Idea''"
    by (simp_all add: ex_cw_def ex_env_def)
  have t: "snd (snd (snd (search ?E ?F Map.empty (ex_cw Tag ''t'')))) =
     Resolved [(''n.md'', \<lparr>start = \<lparr>line = 0, character = 0\<rparr>,
                           end' = \<lparr>line = 0, character = 2\<rparr>\<rparr>)]"
    by code_simp
  have w: "snd (snd (snd (search ?E ?F Map.empty (ex_cw OtherKind ''Idea'')))) =
     Resolved [(''n.md'', \<lparr>start = \<lparr>line = 0, character = 12\<rparr>,
                           end' = \<lparr>line = 0, character = 20\<rparr>\<rparr>)]"
    by code_simp
  from search_context_word [of "ex_cw Tag ''t''" ?E ?F Map.empty] k
  have a: "fst (search ?E ?F Map.empty (ex_cw Tag ''t'')) = ex_cw Tag ''t''"
    by simp
  have b: "fst (search ?E ?F Map.empty (ex_cw OtherKind ''Idea'')) = ex_cw WikiLink ''Idea'' \<and>
           search ?E ?F Map.empty (ex_cw OtherKind ''Idea'') =
             search ?E ?F Map.empty (ex_cw WikiLink ''Idea'')"
    using search_context_word [of "ex_cw OtherKind ''Idea''" ?E ?F Map.empty] k(2) k(3)
    unfolding k(4) by blast
  from a b k t w show ?thesis by blast
qed

text \<open>
  C1. The claim does not hold of the code. The branch that returns the empty list is
  guarded by the assignment \<^verbatim>\<open>(contextWord.type = ContextWordType.WikiLink)\<close>, whose value is
  the truthy enum member, so a context word of a kind that is neither Tag nor WikiLink goes
  on to load the workspace and to match as a WikiLink word: with the file \<^verbatim>\<open>a.md\<close> holding
  \<^verbatim>\<open>see [[Idea]]\<close> the search reads the file and resolves with one location, and when the
  file cannot be read the search is rejected.
\<close>

theorem search_other_kind_proceeds:
  "type (ex_cw OtherKind ''Idea'') \<noteq> Tag \<and> type (ex_cw OtherKind ''Idea'') \<noteq> WikiLink \<and>
   snd (snd (search (ex_env [''a.md'']) (ex_fs [(''a.md'', ''see [[Idea]]'')]) Map.empty
               (ex_cw OtherKind ''Idea''))) =
     ([''a.md''],
      Resolved [(''a.md'', \<lparr>start = \<lparr>line = 0, character = 4\<rparr>,
                            end' = \<lparr>line = 0, character = 12\<rparr>\<rparr>)]) \<and>
   snd (snd (search (ex_env [''a.md'']) (ex_fs []) Map.empty (ex_cw OtherKind ''Idea''))) =
     ([''a.md''], Rejected ''ENOENT'')"
  by code_simp

end
